theory Spec2Isabelle
  imports Main "HOL-Library.Sublist"
begin

section \<open>Strings as the checker uses them\<close>

text \<open>
  Python strings are modelled as \<open>string\<close>. The substring test \<open>needle in hay\<close> is
  \<open>sublist needle hay\<close> (contiguous sublist, executable through its code equations).
  \<open>str.strip()\<close> removes leading and trailing white space and \<open>str.lower()\<close> maps the
  letters \<open>A\<close> to \<open>Z\<close> to lower case; both are modelled on the ASCII range, every other
  character is left as it is.
\<close>

definition is_space :: "char \<Rightarrow> bool" where
  "is_space c = (of_char c \<in> {9, 10, 11, 12, 13, 28, 29, 30, 31, 32 :: nat})"

definition strip :: "string \<Rightarrow> string" where
  "strip s = rev (dropWhile is_space (rev (dropWhile is_space s)))"

definition lower_char :: "char \<Rightarrow> char" where
  "lower_char c =
     (if 65 \<le> (of_char c :: nat) \<and> (of_char c :: nat) \<le> 90
      then char_of (of_char c + 32 :: nat) else c)"

definition lower :: "string \<Rightarrow> string" where
  "lower s = map lower_char s"

section \<open>The browser as the checker sees it\<close>

text \<open>
  Selenium calls either return or raise. The code tells \<open>NoSuchElementException\<close> from
  every other exception, so the model does too; each carries the text \<open>str(e)\<close>.
\<close>

datatype exn = NoSuchElementException string | OtherException string

fun str :: "exn \<Rightarrow> string" where
  "str (NoSuchElementException m) = m"
| "str (OtherException m) = m"

text \<open>
  An element found by \<open>find_elements\<close>. \<open>ancestor_text\<close> is the outcome of
  \<open>element.find_element(By.XPATH, "./ancestor::*[...][1]").text\<close>, the text of the nearest
  ancestor whose class contains \<open>domain\<close> or \<open>result\<close>; \<open>element_text\<close> is the outcome
  of \<open>element.text\<close>. Both are read inside the same \<open>try\<close>, so one outcome each is enough.
\<close>

record element =
  ancestor_text :: "exn + string"
  element_text :: "exn + string"

text \<open>
  A loaded page: \<open>driver.page_source\<close> and the outcome of
  \<open>driver.find_elements(By.XPATH, "//*[contains(text(), '{full_domain}')]")\<close> as a
  function of \<open>full_domain\<close>.
\<close>

record page =
  page_source :: string
  find_elements :: "string \<Rightarrow> exn + element list"

text \<open>
  The driver is shared by all queries of a run. Its answers may change from one navigation
  to the next, so it is a script indexed by the number of navigations made so far, and
  \<open>driver_get\<close> returns the advanced driver. An answer \<open>Inl e\<close> stands for an exception
  raised by \<open>driver.get\<close>, \<open>time.sleep\<close>, \<open>driver.page_source\<close> or \<open>driver.title\<close>, that
  is anywhere before the indicator logic starts.
\<close>

record driver =
  responses :: "nat \<Rightarrow> string \<Rightarrow> exn + page"
  navigations :: nat

definition driver_get :: "driver \<Rightarrow> string \<Rightarrow> (exn + page) \<times> driver" where
  "driver_get drv url =
     (responses drv (navigations drv) url, drv\<lparr>navigations := Suc (navigations drv)\<rparr>)"

definition search_url :: "string \<Rightarrow> string" where
  "search_url full_domain =
     ''https://www.godaddy.com/domainsearch/find?checkAvail=1&domainToCheck='' @ full_domain"

section \<open>Classification: the body of \<open>check_domain_availability\<close>\<close>

definition taken_indicators :: "string list" where
  "taken_indicators =
     [''is taken'', ''domain taken'', ''already taken'', ''unavailable'', ''not available'']"

definition available_indicators :: "string list" where
  "available_indicators = [''add to cart'', ''buy now'', ''add to bag'', ''purchase'']"

text \<open>\<open>any(ind in text for ind in inds)\<close>\<close>

definition any_in :: "string list \<Rightarrow> string \<Rightarrow> bool" where
  "any_in inds t = list_ex (\<lambda>ind. sublist ind t) inds"

text \<open>The pair \<open>(is_available, status)\<close> of the source; \<open>is_available\<close> starts as \<open>None\<close>.\<close>

type_synonym verdict = "bool option \<times> string"

text \<open>
  Stage 1, the loop
  \<^verbatim>\<open>for indicator in taken_indicators: if indicator in page_text: ...; break\<close>
\<close>

fun taken_scan :: "string list \<Rightarrow> string \<Rightarrow> verdict \<Rightarrow> verdict" where
  "taken_scan [] page_text v = v"
| "taken_scan (indicator # rest) page_text v =
     (if sublist indicator page_text then (Some False, ''Taken'')
      else taken_scan rest page_text v)"

text \<open>
  The \<open>if\<close>/\<open>elif\<close> on an inspected text in stage 2: \<open>Some v\<close> is an assignment followed
  by \<open>break\<close>, \<open>None\<close> is falling out of the \<open>if\<close> to the next element.
\<close>

definition inspect :: "string \<Rightarrow> verdict option" where
  "inspect t =
     (if any_in available_indicators t then Some (Some True, ''Available'')
      else if any_in taken_indicators t then Some (Some False, ''Taken'')
      else None)"

text \<open>
  Stage 2, the loop over \<open>domain_elements\<close>. A \<open>NoSuchElementException\<close> of the ancestor
  lookup is handled by reading the element's own text; any other exception, and any
  exception of \<open>element.text\<close> in that handler, leaves the loop (\<open>Inl\<close>).
\<close>

fun element_scan :: "element list \<Rightarrow> verdict \<Rightarrow> exn + verdict" where
  "element_scan [] v = Inr v"
| "element_scan (el # rest) v =
     (case ancestor_text el of
        Inr t \<Rightarrow>
          (case inspect (lower t) of
             Some v' \<Rightarrow> Inr v'
           | None \<Rightarrow> element_scan rest v)
      | Inl (NoSuchElementException m) \<Rightarrow>
          (case element_text el of
             Inr t \<Rightarrow>
               (case inspect (lower t) of
                  Some v' \<Rightarrow> Inr v'
                | None \<Rightarrow> element_scan rest v)
           | Inl e \<Rightarrow> Inl e)
      | Inl (OtherException m) \<Rightarrow> Inl (OtherException m))"

text \<open>Stage 3, the fallback on the page text after an inconclusive stage 2.\<close>

definition whole_page_fallback :: "string \<Rightarrow> string \<Rightarrow> verdict \<Rightarrow> verdict" where
  "whole_page_fallback page_text full_domain v =
     (if any_in available_indicators page_text then
        (if sublist full_domain page_text then (Some True, ''Available'') else v)
      else if sublist ''domain taken'' page_text
              \<or> sublist (full_domain @ '' is taken'') page_text
      then (Some False, ''Taken'')
      else v)"

text \<open>The handler \<open>except Exception\<close> around stage 2 and stage 3.\<close>

definition exception_fallback :: "string \<Rightarrow> verdict \<Rightarrow> verdict" where
  "exception_fallback page_text v =
     (if any_in available_indicators page_text then (Some True, ''Available'')
      else if any_in taken_indicators page_text then (Some False, ''Taken'')
      else v)"

text \<open>
  The \<open>try\<close> block of stage 2 up to the end of the loop: the query for the elements
  whose text contains \<open>full_domain\<close>, then the loop. \<open>if domain_elements:\<close> skips the
  loop for an empty list, as the loop itself does.
\<close>

definition element_stage :: "page \<Rightarrow> string \<Rightarrow> verdict \<Rightarrow> exn + verdict" where
  "element_stage p full_domain v =
     (case find_elements p full_domain of
        Inl e \<Rightarrow> Inl e
      | Inr domain_elements \<Rightarrow> element_scan domain_elements v)"

text \<open>
  Stages 2 and 3 with their handler, entered when stage 1 left \<open>is_available\<close> at \<open>None\<close>.
\<close>

definition targeted_scan :: "page \<Rightarrow> string \<Rightarrow> string \<Rightarrow> verdict \<Rightarrow> verdict" where
  "targeted_scan p page_text full_domain v =
     (case element_stage p full_domain v of
        Inl e \<Rightarrow> exception_fallback page_text v
      | Inr v' \<Rightarrow>
          if fst v' = None then whole_page_fallback page_text full_domain v' else v')"

text \<open>
  The whole decision on a loaded page. The source has it inline in
  \<open>check_domain_availability\<close>, the same text in \<open>domain_checker.py\<close> and in \<open>app.py\<close>.
\<close>

definition classify :: "page \<Rightarrow> string \<Rightarrow> verdict" where
  "classify p full_domain =
     (let page_text = lower (page_source p);
          v = taken_scan taken_indicators page_text (None, ''Unknown'')
      in if fst v = None then targeted_scan p page_text full_domain v else v)"

section \<open>Result records\<close>

record result =
  Domain_Name :: string
  Extension :: string
  Full_Domain :: string
  Available :: string
  Status :: string

text \<open>\<^verbatim>\<open>"Yes" if is_available else "No" if is_available is False else "Unknown"\<close>\<close>

fun available_field :: "bool option \<Rightarrow> string" where
  "available_field (Some True) = ''Yes''"
| "available_field (Some False) = ''No''"
| "available_field None = ''Unknown''"

text \<open>\<open>check_domain_availability\<close> of \<open>domain_checker.py\<close>: the error text is \<open>str(e)\<close>.\<close>

definition check_domain_availability :: "driver \<Rightarrow> string \<Rightarrow> string \<Rightarrow> result \<times> driver" where
  "check_domain_availability drv domain_name extension =
     (let full_domain = domain_name @ extension;
          (loaded, drv') = driver_get drv (search_url full_domain)
      in (case loaded of
            Inr p \<Rightarrow>
              (let (is_available, status) = classify p full_domain
               in \<lparr>Domain_Name = domain_name, Extension = extension,
                   Full_Domain = full_domain,
                   Available = available_field is_available, Status = status\<rparr>)
          | Inl e \<Rightarrow>
              \<lparr>Domain_Name = domain_name, Extension = extension,
               Full_Domain = full_domain,
               Available = ''Unknown'', Status = ''Error: '' @ str e\<rparr>,
          drv'))"

text \<open>\<open>check_domain_availability\<close> of \<open>app.py\<close>: the error text is \<open>str(e)[:50]\<close>.\<close>

definition app_check_domain_availability ::
  "driver \<Rightarrow> string \<Rightarrow> string \<Rightarrow> result \<times> driver" where
  "app_check_domain_availability drv domain_name extension =
     (let full_domain = domain_name @ extension;
          (loaded, drv') = driver_get drv (search_url full_domain)
      in (case loaded of
            Inr p \<Rightarrow>
              (let (is_available, status) = classify p full_domain
               in \<lparr>Domain_Name = domain_name, Extension = extension,
                   Full_Domain = full_domain,
                   Available = available_field is_available, Status = status\<rparr>)
          | Inl e \<Rightarrow>
              \<lparr>Domain_Name = domain_name, Extension = extension,
               Full_Domain = full_domain,
               Available = ''Unknown'', Status = ''Error: '' @ take 50 (str e)\<rparr>,
          drv'))"


section \<open>The batch loops\<close>

text \<open>
  The state of a run: the shared driver, the list \<open>results\<close> being appended to, and the
  lines printed so far.
\<close>

record run =
  drv :: driver
  results :: "result list"
  out :: "string list"

text \<open>
  \<open>check_domains\<close> of \<open>domain_checker.py\<close>. The inner loop over \<open>extensions\<close>:
\<close>

fun extensions_loop :: "string \<Rightarrow> string list \<Rightarrow> run \<Rightarrow> run" where
  "extensions_loop domain_name [] s = s"
| "extensions_loop domain_name (extension # rest) s =
     (let (r, drv') = check_domain_availability (drv s) domain_name extension
      in extensions_loop domain_name rest
           (s\<lparr>drv := drv',
              results := results s @ [r],
              out := out s @
                [''Checking '' @ domain_name @ extension @ ''...'',
                 ''  Result: '' @ Available r @ '' - '' @ Status r]\<rparr>))"

text \<open>
  The outer loop over \<open>domain_names\<close>, with
  \<^verbatim>\<open>domain_name = domain_name.strip().lower()\<close> and \<^verbatim>\<open>if not domain_name: continue\<close>.
\<close>

fun domains_loop :: "string list \<Rightarrow> string list \<Rightarrow> run \<Rightarrow> run" where
  "domains_loop [] extensions s = s"
| "domains_loop (name # rest) extensions s =
     (let domain_name = lower (strip name)
      in if domain_name = [] then domains_loop rest extensions s
         else domains_loop rest extensions (extensions_loop domain_name extensions s))"

text \<open>
  \<open>check_domains\<close>: \<open>chrome\<close> is the outcome of \<open>webdriver.Chrome(options=options)\<close>
  followed by \<open>driver.implicitly_wait(5)\<close>. The function returns \<open>results\<close>; the printed
  lines are returned beside it. \<open>driver.quit()\<close> and the delays are not modelled.
\<close>

definition check_domains ::
  "exn + driver \<Rightarrow> string list \<Rightarrow> string list \<Rightarrow> result list \<times> string list" where
  "check_domains chrome domain_names extensions =
     (case chrome of
        Inr driver \<Rightarrow>
          (let s = domains_loop domain_names extensions
                     \<lparr>drv = driver, results = [], out = []\<rparr>
           in (results s, out s))
      | Inl e \<Rightarrow>
          ([], [''Error setting up browser: '' @ str e,
                ''Make sure you have ChromeDriver installed and in your PATH'',
                ''Or install it with: brew install chromedriver (on macOS)'']))"

text \<open>
  \<open>save_to_csv\<close>: the file written, as its rows of fields (\<open>None\<close> when no file is
  opened), and the lines printed.
\<close>

definition fieldnames :: "string list" where
  "fieldnames = [''Domain Name'', ''Extension'', ''Full Domain'', ''Available'', ''Status'']"

definition row :: "result \<Rightarrow> string list" where
  "row r = [Domain_Name r, Extension r, Full_Domain r, Available r, Status r]"

definition save_to_csv :: "result list \<Rightarrow> string \<Rightarrow> string list list option \<times> string list" where
  "save_to_csv rs filename =
     (if rs = [] then (None, [''No results to save.''])
      else (Some (fieldnames # map row rs), ['''', ''Results saved to '' @ filename]))"

text \<open>The three counts of the summary in \<open>main\<close>.\<close>

definition available_count :: "result list \<Rightarrow> nat" where
  "available_count rs = length (filter (\<lambda>r. Available r = ''Yes'') rs)"

definition taken_count :: "result list \<Rightarrow> nat" where
  "taken_count rs = length (filter (\<lambda>r. Available r = ''No'') rs)"

definition unknown_count :: "result list \<Rightarrow> nat" where
  "unknown_count rs = length (filter (\<lambda>r. Available r = ''Unknown'') rs)"

text \<open>
  The check loop of \<open>main\<close> in \<open>app.py\<close>. The names come from the text area or the
  uploaded file, one per line:
  \<^verbatim>\<open>[line.strip().lower() for line in domain_text.split('\n') if line.strip()]\<close>
\<close>

definition app_domain_names :: "string list \<Rightarrow> string list" where
  "app_domain_names lines = map (\<lambda>line. lower (strip line)) (filter (\<lambda>line. strip line \<noteq> []) lines)"

fun app_extensions_loop :: "string \<Rightarrow> string list \<Rightarrow> driver \<times> result list \<Rightarrow> driver \<times> result list" where
  "app_extensions_loop domain_name [] s = s"
| "app_extensions_loop domain_name (extension # rest) (driver, rs) =
     (let (r, drv') = app_check_domain_availability driver domain_name extension
      in app_extensions_loop domain_name rest (drv', rs @ [r]))"

fun app_domains_loop :: "string list \<Rightarrow> string list \<Rightarrow> driver \<times> result list \<Rightarrow> driver \<times> result list" where
  "app_domains_loop [] extensions s = s"
| "app_domains_loop (domain_name # rest) extensions s =
     (if domain_name = [] then app_domains_loop rest extensions s
      else app_domains_loop rest extensions (app_extensions_loop domain_name extensions s))"

text \<open>
  The handler of the button: it stops with a warning on an empty list of names or of
  extensions and when \<open>init_driver\<close> returned \<open>None\<close> (\<open>Inl\<close> here); otherwise it stores
  the results of the loop in the session state (\<open>Some\<close>).
\<close>

definition app_check :: "exn + driver \<Rightarrow> string list \<Rightarrow> string list \<Rightarrow> result list option" where
  "app_check init_driver lines extensions =
     (let domain_names = app_domain_names lines
      in if domain_names = [] then None
         else if extensions = [] then None
         else (case init_driver of
                 Inl e \<Rightarrow> None
               | Inr driver \<Rightarrow> Some (snd (app_domains_loop domain_names extensions (driver, [])))))"

section \<open>The specification's view of a run\<close>

text \<open>
  The base names of a job after normalisation: each trimmed and lower-cased, the empty
  ones dropped, the order kept.
\<close>

definition normalized_names :: "string list \<Rightarrow> string list" where
  "normalized_names names = filter (\<lambda>n. n \<noteq> []) (map (\<lambda>n. lower (strip n)) names)"

text \<open>The queries of a job, base names outside and extensions inside.\<close>

definition queries :: "string list \<Rightarrow> string list \<Rightarrow> (string \<times> string) list" where
  "queries names extensions =
     concat (map (\<lambda>d. map (\<lambda>e. (d, e)) extensions) (normalized_names names))"

text \<open>
  One check per query, in the order of the list, each on the driver the one before left.
\<close>

fun run_queries ::
  "(driver \<Rightarrow> string \<Rightarrow> string \<Rightarrow> result \<times> driver) \<Rightarrow> driver \<Rightarrow> (string \<times> string) list
     \<Rightarrow> result list \<times> driver" where
  "run_queries chk driver [] = ([], driver)"
| "run_queries chk driver ((d, e) # qs) =
     (let (r, drv') = chk driver d e;
          (rs, drv'') = run_queries chk drv' qs
      in (r # rs, drv''))"

section \<open>Concrete pages and drivers\<close>

text \<open>A driver that answers every navigation with the same page.\<close>

definition serving :: "page \<Rightarrow> driver" where
  "serving p = \<lparr>responses = (\<lambda>n url. Inr p), navigations = 0\<rparr>"

text \<open>A page that says the name is taken and also offers a cart button; no element found.\<close>

definition taken_page :: page where
  "taken_page =
     \<lparr>page_source = ''<div>foo.com IS TAKEN</div><button>Add to Cart</button>'',
      find_elements = (\<lambda>full_domain. Inr [])\<rparr>"

text \<open>
  A result card whose rendered text holds both a cart button and a taken notice, on a page
  whose source splits both phrases by markup.
\<close>

definition mixed_card :: element where
  "mixed_card =
     \<lparr>ancestor_text = Inr ''foo.com Add to Cart foo.net is taken'',
      element_text = Inr ''foo.com''\<rparr>"

definition mixed_card_page :: page where
  "mixed_card_page =
     \<lparr>page_source =
        ''<div class=result><span>foo.com</span><button>Add to <b>Cart</b></button><i>foo.net is</i> taken</div>'',
      find_elements = (\<lambda>full_domain. Inr [mixed_card])\<rparr>"

text \<open>
  A page whose source holds the name and a cart button for other names, and whose result
  card for the name renders as a taken notice that the source splits by markup.
\<close>

definition taken_card :: element where
  "taken_card =
     \<lparr>ancestor_text = Inr ''foo.com is taken'', element_text = Inr ''foo.com''\<rparr>"

definition taken_card_page :: page where
  "taken_card_page =
     \<lparr>page_source =
        ''<div class=result><span>foo.com</span> <i>is</i> taken</div><a>Add to cart</a>'',
      find_elements = (\<lambda>full_domain. Inr [taken_card])\<rparr>"

text \<open>The page of the specification's scenario for an available name; no element found.\<close>

definition available_page :: page where
  "available_page =
     \<lparr>page_source = ''<p>bar.com</p><button>Add to Cart</button>'',
      find_elements = (\<lambda>full_domain. Inr [])\<rparr>"

text \<open>
  A page whose source holds no indicator, the cart button being split by markup, and whose
  result card renders the button's text in one piece.
\<close>

definition cart_card :: element where
  "cart_card =
     \<lparr>ancestor_text = Inr ''foo.com Add to Cart'', element_text = Inr ''foo.com''\<rparr>"

definition split_button_page :: page where
  "split_button_page =
     \<lparr>page_source =
        ''<div class=result><span>foo.com</span><button>Add to <b>Cart</b></button></div>'',
      find_elements = (\<lambda>full_domain. Inr [cart_card])\<rparr>"

text \<open>A page without any indicator and without elements.\<close>

definition plain_page :: page where
  "plain_page =
     \<lparr>page_source = ''<p>Welcome</p>'', find_elements = (\<lambda>full_domain. Inr [])\<rparr>"

text \<open>
  A page that offers another name with a cart button and does not mention the name asked
  for; the query for the elements raises.
\<close>

definition alternatives_page :: page where
  "alternatives_page =
     \<lparr>page_source = ''<p>Try foo.net</p><button>Add to Cart</button>'',
      find_elements = (\<lambda>full_domain. Inl (OtherException ''stale element reference''))\<rparr>"

text \<open>A driver whose every navigation times out, with a message of 68 characters.\<close>

definition timeout_message :: string where
  "timeout_message = ''Message: timeout: Timed out receiving message from renderer: 300.000''"

definition timing_out :: driver where
  "timing_out = \<lparr>responses = (\<lambda>n url. Inl (OtherException timeout_message)), navigations = 0\<rparr>"

text \<open>A driver whose second navigation times out and whose other navigations load a page.\<close>

definition second_fails :: driver where
  "second_fails =
     \<lparr>responses = (\<lambda>n url. if n = 1 then Inl (OtherException timeout_message)
                            else Inr available_page),
      navigations = 0\<rparr>"

section \<open>Facts about the stages\<close>

lemma taken_scan_found:
  "list_ex (\<lambda>ind. sublist ind t) inds \<Longrightarrow> taken_scan inds t v = (Some False, ''Taken'')"
  by (induction inds) auto

lemma taken_scan_not_found:
  "\<not> list_ex (\<lambda>ind. sublist ind t) inds \<Longrightarrow> taken_scan inds t v = v"
  by (induction inds) auto

lemma taken_scan_None:
  "fst (taken_scan taken_indicators t (None, ''Unknown'')) = None \<longleftrightarrow> \<not> any_in taken_indicators t"
  unfolding any_in_def
  by (cases "list_ex (\<lambda>ind. sublist ind t) taken_indicators")
     (simp_all add: taken_scan_found taken_scan_not_found)

lemma classify_taken:
  "any_in taken_indicators (lower (page_source p)) \<Longrightarrow>
   classify p full_domain = (Some False, ''Taken'')"
  by (simp add: classify_def any_in_def taken_scan_found Let_def)

lemma classify_not_taken:
  "\<not> any_in taken_indicators (lower (page_source p)) \<Longrightarrow>
   classify p full_domain =
     targeted_scan p (lower (page_source p)) full_domain (None, ''Unknown'')"
  by (simp add: classify_def any_in_def taken_scan_not_found Let_def)

lemma inspect_cases:
  "inspect t = Some v \<Longrightarrow> v = (Some True, ''Available'') \<or> v = (Some False, ''Taken'')"
  by (auto simp: inspect_def split: if_splits)

lemma element_scan_cases:
  "element_scan els v = Inr v' \<Longrightarrow>
   v' = v \<or> v' = (Some True, ''Available'') \<or> v' = (Some False, ''Taken'')"
  by (induction els) (auto split: sum.splits exn.splits option.splits dest: inspect_cases)

lemma element_stage_cases:
  "element_stage p fd v = Inr v' \<Longrightarrow>
   v' = v \<or> v' = (Some True, ''Available'') \<or> v' = (Some False, ''Taken'')"
  by (auto simp: element_stage_def split: sum.splits dest: element_scan_cases)

lemma is_taken_suffix: "sublist (fd @ '' is taken'') t \<Longrightarrow> sublist ''is taken'' t"
proof -
  assume "sublist (fd @ '' is taken'') t"
  then obtain ps ss where "t = ps @ (fd @ '' is taken'') @ ss"
    by (auto simp: sublist_def)
  then have "t = (ps @ fd @ '' '') @ ''is taken'' @ ss" by simp
  then show ?thesis unfolding sublist_def by blast
qed

lemma literal_phrases_are_indicators:
  "sublist ''domain taken'' t \<or> sublist (fd @ '' is taken'') t \<Longrightarrow> any_in taken_indicators t"
  by (auto simp: any_in_def taken_indicators_def dest: is_taken_suffix)

lemma whole_page_fallback_not_taken:
  "\<not> any_in taken_indicators t \<Longrightarrow>
   whole_page_fallback t fd v =
     (if any_in available_indicators t \<and> sublist fd t then (Some True, ''Available'') else v)"
  using literal_phrases_are_indicators [of t fd]
  by (auto simp: whole_page_fallback_def)

lemma exception_fallback_not_taken:
  "\<not> any_in taken_indicators t \<Longrightarrow>
   exception_fallback t v = (if any_in available_indicators t then (Some True, ''Available'') else v)"
  by (simp add: exception_fallback_def)

lemma classify_range:
  "classify p fd = (None, ''Unknown'') \<or> classify p fd = (Some True, ''Available'')
   \<or> classify p fd = (Some False, ''Taken'')"
proof (cases "any_in taken_indicators (lower (page_source p))")
  case True
  then show ?thesis by (simp add: classify_taken)
next
  case False
  show ?thesis
  proof (cases "element_stage p fd (None, ''Unknown'')")
    case (Inl e)
    with False show ?thesis
      by (simp add: classify_not_taken targeted_scan_def exception_fallback_not_taken)
  next
    case (Inr v')
    from element_stage_cases [OF Inr] False Inr show ?thesis
      by (auto simp: classify_not_taken targeted_scan_def whole_page_fallback_not_taken)
  qed
qed

lemma check_domain_availability_loaded:
  "responses driver (navigations driver) (search_url (domain_name @ extension)) = Inr p \<Longrightarrow>
   fst (check_domain_availability driver domain_name extension) =
     \<lparr>Domain_Name = domain_name, Extension = extension,
      Full_Domain = domain_name @ extension,
      Available = available_field (fst (classify p (domain_name @ extension))),
      Status = snd (classify p (domain_name @ extension))\<rparr>"
  by (simp add: check_domain_availability_def driver_get_def Let_def split: prod.splits)

lemma app_check_domain_availability_loaded:
  "responses driver (navigations driver) (search_url (domain_name @ extension)) = Inr p \<Longrightarrow>
   fst (app_check_domain_availability driver domain_name extension) =
     \<lparr>Domain_Name = domain_name, Extension = extension,
      Full_Domain = domain_name @ extension,
      Available = available_field (fst (classify p (domain_name @ extension))),
      Status = snd (classify p (domain_name @ extension))\<rparr>"
  by (simp add: app_check_domain_availability_def driver_get_def Let_def split: prod.splits)


section \<open>Stage 1 takes precedence on the page text\<close>

text \<open>
  C1. When the lower-cased page source contains a taken indicator, the decision is
  \<open>(False, "Taken")\<close> and the record of either front end has \<open>Available = "No"\<close> and
  \<open>Status = "Taken"\<close>, whatever else the page text, the elements or their ancestors hold.
\<close>

theorem taken_indicator_in_page_text_gives_taken:
  assumes "responses driver (navigations driver) (search_url (domain_name @ extension)) = Inr p"
    and "any_in taken_indicators (lower (page_source p))"
  shows "classify p (domain_name @ extension) = (Some False, ''Taken'')
       \<and> Available (fst (check_domain_availability driver domain_name extension)) = ''No''
       \<and> Status (fst (check_domain_availability driver domain_name extension)) = ''Taken''
       \<and> Available (fst (app_check_domain_availability driver domain_name extension)) = ''No''
       \<and> Status (fst (app_check_domain_availability driver domain_name extension)) = ''Taken''"
  using assms
  by (simp add: check_domain_availability_loaded app_check_domain_availability_loaded
      classify_taken)

text \<open>
  The page \<open>taken_page\<close> holds \<open>is taken\<close> and \<open>add to cart\<close> after lower-casing; both
  front ends report the name as taken.
\<close>

theorem taken_indicator_in_page_text_gives_taken_witness:
  "any_in taken_indicators (lower (page_source taken_page))
   \<and> any_in available_indicators (lower (page_source taken_page))
   \<and> classify taken_page (''foo'' @ ''.com'') = (Some False, ''Taken'')
   \<and> Available (fst (check_domain_availability (serving taken_page) ''foo'' ''.com'')) = ''No''
   \<and> Status (fst (check_domain_availability (serving taken_page) ''foo'' ''.com'')) = ''Taken''
   \<and> Available (fst (app_check_domain_availability (serving taken_page) ''foo'' ''.com'')) = ''No''
   \<and> Status (fst (app_check_domain_availability (serving taken_page) ''foo'' ''.com'')) = ''Taken''"
proof -
  have loaded: "responses (serving taken_page) (navigations (serving taken_page))
                  (search_url (''foo'' @ ''.com'')) = Inr taken_page"
    by (simp add: serving_def)
  have taken: "any_in taken_indicators (lower (page_source taken_page))"
    by code_simp
  have available: "any_in available_indicators (lower (page_source taken_page))"
    by code_simp
  from taken_indicator_in_page_text_gives_taken [OF loaded taken] taken available
  show ?thesis by blast
qed

text \<open>
  C2, as stated, fails in stage 2: the card of \<open>mixed_card_page\<close> renders a text that
  holds the taken indicator \<open>is taken\<close> and the available indicator \<open>add to cart\<close>, the
  page source holds neither, and the decision is \<open>Available\<close>.
\<close>

theorem stage_two_available_despite_taken_indicator:
  "find_elements mixed_card_page ''foo.com'' = Inr [mixed_card]
   \<and> ancestor_text mixed_card = Inr ''foo.com Add to Cart foo.net is taken''
   \<and> any_in taken_indicators (lower ''foo.com Add to Cart foo.net is taken'')
   \<and> any_in available_indicators (lower ''foo.com Add to Cart foo.net is taken'')
   \<and> classify mixed_card_page ''foo.com'' = (Some True, ''Available'')"
proof -
  have "find_elements mixed_card_page ''foo.com'' = Inr [mixed_card]"
    by (simp add: mixed_card_page_def)
  moreover have "ancestor_text mixed_card = Inr ''foo.com Add to Cart foo.net is taken''"
    by (simp add: mixed_card_def)
  moreover have "any_in taken_indicators (lower ''foo.com Add to Cart foo.net is taken'')"
    by code_simp
  moreover have "any_in available_indicators (lower ''foo.com Add to Cart foo.net is taken'')"
    by code_simp
  moreover have "classify mixed_card_page ''foo.com'' = (Some True, ''Available'')"
    by code_simp
  ultimately show ?thesis by blast
qed

text \<open>
  C2, amended. A taken indicator in the page text takes precedence over every available
  indicator: the decision is never \<open>Available\<close> when the lower-cased page source contains a
  taken indicator. On a text inspected in stage 2 the order is the other way round: the
  available indicators are tested first, so a text that contains one yields \<open>Available\<close>
  whether or not it also contains a taken indicator.
\<close>

theorem page_text_taken_precedes_available:
  assumes "any_in taken_indicators (lower (page_source p))"
    and "any_in available_indicators t"
  shows "fst (classify p full_domain) \<noteq> Some True
       \<and> snd (classify p full_domain) \<noteq> ''Available''
       \<and> inspect t = Some (Some True, ''Available'')"
  using assms by (simp add: classify_taken inspect_def)

theorem page_text_taken_precedes_available_witness:
  "any_in taken_indicators (lower (page_source taken_page))
   \<and> any_in available_indicators (lower ''foo.com Add to Cart foo.net is taken'')
   \<and> any_in taken_indicators (lower ''foo.com Add to Cart foo.net is taken'')
   \<and> fst (classify taken_page ''foo.com'') \<noteq> Some True
   \<and> snd (classify taken_page ''foo.com'') \<noteq> ''Available''
   \<and> inspect (lower ''foo.com Add to Cart foo.net is taken'') = Some (Some True, ''Available'')"
proof -
  have taken: "any_in taken_indicators (lower (page_source taken_page))"
    by code_simp
  have available: "any_in available_indicators (lower ''foo.com Add to Cart foo.net is taken'')"
    by code_simp
  have both: "any_in taken_indicators (lower ''foo.com Add to Cart foo.net is taken'')"
    by code_simp
  from page_text_taken_precedes_available [OF taken available] taken available both
  show ?thesis by blast
qed

section \<open>Stage 2 decides before the whole-page fallback\<close>

text \<open>
  C3, as stated, fails when stage 2 finds a card that reads as taken: the source of
  \<open>taken_card_page\<close> holds no taken indicator, holds \<open>add to cart\<close> and \<open>foo.com\<close>, and
  the decision is \<open>Taken\<close>.
\<close>

theorem available_page_text_overridden_by_taken_card:
  "\<not> any_in taken_indicators (lower (page_source taken_card_page))
   \<and> any_in available_indicators (lower (page_source taken_card_page))
   \<and> sublist ''foo.com'' (lower (page_source taken_card_page))
   \<and> classify taken_card_page ''foo.com'' = (Some False, ''Taken'')"
proof -
  have "\<not> any_in taken_indicators (lower (page_source taken_card_page))"
    by code_simp
  moreover have "any_in available_indicators (lower (page_source taken_card_page))"
    by code_simp
  moreover have "sublist ''foo.com'' (lower (page_source taken_card_page))"
    by code_simp
  moreover have "classify taken_card_page ''foo.com'' = (Some False, ''Taken'')"
    by code_simp
  ultimately show ?thesis by blast
qed

text \<open>
  C3, amended. When the lower-cased page source contains no taken indicator, contains an
  available indicator and contains \<open>full_domain\<close>, the decision is \<open>Available\<close> unless
  stage 2 decides \<open>Taken\<close> (it reaches, without an exception, an element whose inspected
  text holds a taken indicator and no available one), and then it is \<open>Taken\<close>. In particular
  it is \<open>Available\<close> when the query returns no elements or stage 2 raises.
\<close>

theorem available_page_text_unless_stage_two_taken:
  assumes "\<not> any_in taken_indicators (lower (page_source p))"
    and "any_in available_indicators (lower (page_source p))"
    and "sublist full_domain (lower (page_source p))"
  shows "classify p full_domain =
           (if element_stage p full_domain (None, ''Unknown'') = Inr (Some False, ''Taken'')
            then (Some False, ''Taken'') else (Some True, ''Available''))"
proof (cases "element_stage p full_domain (None, ''Unknown'')")
  case (Inl e)
  with assms show ?thesis
    by (simp add: classify_not_taken targeted_scan_def exception_fallback_not_taken)
next
  case (Inr v')
  from element_stage_cases [OF Inr] assms Inr show ?thesis
    by (auto simp: classify_not_taken targeted_scan_def whole_page_fallback_not_taken)
qed

theorem available_page_text_unless_stage_two_taken_witness:
  "\<not> any_in taken_indicators (lower (page_source available_page))
   \<and> any_in available_indicators (lower (page_source available_page))
   \<and> sublist ''bar.com'' (lower (page_source available_page))
   \<and> element_stage available_page ''bar.com'' (None, ''Unknown'') = Inr (None, ''Unknown'')
   \<and> classify available_page ''bar.com'' = (Some True, ''Available'')"
proof -
  have no_taken: "\<not> any_in taken_indicators (lower (page_source available_page))"
    by code_simp
  have available: "any_in available_indicators (lower (page_source available_page))"
    by code_simp
  have named: "sublist ''bar.com'' (lower (page_source available_page))"
    by code_simp
  have stage: "element_stage available_page ''bar.com'' (None, ''Unknown'') = Inr (None, ''Unknown'')"
    by (simp add: element_stage_def available_page_def)
  from available_page_text_unless_stage_two_taken [OF no_taken available named]
  have "classify available_page ''bar.com'' = (Some True, ''Available'')"
    by (simp add: stage)
  with no_taken available named stage show ?thesis by blast
qed

text \<open>
  C4, as stated, fails when stage 2 finds a card that reads as available: the source of
  \<open>split_button_page\<close> holds no indicator of either family and the decision is
  \<open>Available\<close>.
\<close>

theorem no_page_indicator_yet_available:
  "\<not> any_in taken_indicators (lower (page_source split_button_page))
   \<and> \<not> any_in available_indicators (lower (page_source split_button_page))
   \<and> classify split_button_page ''foo.com'' = (Some True, ''Available'')"
proof -
  have "\<not> any_in taken_indicators (lower (page_source split_button_page))"
    by code_simp
  moreover have "\<not> any_in available_indicators (lower (page_source split_button_page))"
    by code_simp
  moreover have "classify split_button_page ''foo.com'' = (Some True, ''Available'')"
    by code_simp
  ultimately show ?thesis by blast
qed

text \<open>
  C4, amended. When the lower-cased page source contains no taken indicator and no
  available indicator, the decision is the one of stage 2: \<open>Unknown\<close> with status
  \<open>Unknown\<close> when stage 2 raises or no inspected text holds an indicator, and otherwise
  the verdict of the first element whose inspected text holds one.
\<close>

theorem no_page_indicator_gives_stage_two_verdict:
  assumes "\<not> any_in taken_indicators (lower (page_source p))"
    and "\<not> any_in available_indicators (lower (page_source p))"
  shows "classify p full_domain =
           (case element_stage p full_domain (None, ''Unknown'') of
              Inl e \<Rightarrow> (None, ''Unknown'')
            | Inr v \<Rightarrow> v)"
proof (cases "element_stage p full_domain (None, ''Unknown'')")
  case (Inl e)
  with assms show ?thesis
    by (simp add: classify_not_taken targeted_scan_def exception_fallback_not_taken)
next
  case (Inr v')
  from element_stage_cases [OF Inr] assms Inr show ?thesis
    by (auto simp: classify_not_taken targeted_scan_def whole_page_fallback_not_taken)
qed

theorem no_page_indicator_gives_stage_two_verdict_witness:
  "\<not> any_in taken_indicators (lower (page_source plain_page))
   \<and> \<not> any_in available_indicators (lower (page_source plain_page))
   \<and> element_stage plain_page ''foo.com'' (None, ''Unknown'') = Inr (None, ''Unknown'')
   \<and> classify plain_page ''foo.com'' = (None, ''Unknown'')"
proof -
  have no_taken: "\<not> any_in taken_indicators (lower (page_source plain_page))"
    by code_simp
  have no_available: "\<not> any_in available_indicators (lower (page_source plain_page))"
    by code_simp
  have stage: "element_stage plain_page ''foo.com'' (None, ''Unknown'') = Inr (None, ''Unknown'')"
    by (simp add: element_stage_def plain_page_def)
  from no_page_indicator_gives_stage_two_verdict [OF no_taken no_available]
  have "classify plain_page ''foo.com'' = (None, ''Unknown'')"
    by (simp add: stage)
  with no_taken no_available stage show ?thesis by blast
qed

section \<open>The handler of stage 2\<close>

text \<open>
  C5. An exception of stage 2 is caught and the decision is to be the one of the
  whole-page fallback on the page text, which gives \<open>Available\<close> only when the page text
  holds an available indicator and \<open>full_domain\<close>. The handler does not do this: on
  \<open>alternatives_page\<close> the query for the elements raises, the page source holds
  \<open>add to cart\<close> but not \<open>foo.com\<close>, the whole-page fallback leaves the decision at
  \<open>Unknown\<close>, and the handler decides \<open>Available\<close>. The handler lacks the test
  \<^verbatim>\<open>if f"{full_domain}" in page_text\<close> that the fallback makes.
\<close>

theorem handler_available_without_full_domain:
  "element_stage alternatives_page ''foo.com'' (None, ''Unknown'')
     = Inl (OtherException ''stale element reference'')
   \<and> any_in available_indicators (lower (page_source alternatives_page))
   \<and> \<not> sublist ''foo.com'' (lower (page_source alternatives_page))
   \<and> whole_page_fallback (lower (page_source alternatives_page)) ''foo.com'' (None, ''Unknown'')
       = (None, ''Unknown'')
   \<and> exception_fallback (lower (page_source alternatives_page)) (None, ''Unknown'')
       = (Some True, ''Available'')
   \<and> classify alternatives_page ''foo.com'' = (Some True, ''Available'')"
proof -
  have "element_stage alternatives_page ''foo.com'' (None, ''Unknown'')
          = Inl (OtherException ''stale element reference'')"
    by (simp add: element_stage_def alternatives_page_def)
  moreover have "any_in available_indicators (lower (page_source alternatives_page))"
    by code_simp
  moreover have "\<not> sublist ''foo.com'' (lower (page_source alternatives_page))"
    by code_simp
  moreover have "whole_page_fallback (lower (page_source alternatives_page)) ''foo.com''
                   (None, ''Unknown'') = (None, ''Unknown'')"
    by code_simp
  moreover have "exception_fallback (lower (page_source alternatives_page)) (None, ''Unknown'')
                   = (Some True, ''Available'')"
    by code_simp
  moreover have "classify alternatives_page ''foo.com'' = (Some True, ''Available'')"
    by code_simp
  ultimately show ?thesis by blast
qed

section \<open>The fallback's taken branch\<close>

text \<open>
  C9. When stage 1 found nothing (\<open>is_available\<close> is still \<open>None\<close> after the scan, the only
  way to reach stage 3), the page text contains neither \<open>domain taken\<close> nor
  \<open>{full_domain} is taken\<close>, so the whole-page fallback does not assign \<open>Taken\<close>.
\<close>

theorem fallback_taken_branch_unreachable:
  assumes "fst (taken_scan taken_indicators page_text (None, ''Unknown'')) = None"
  shows "\<not> (sublist ''domain taken'' page_text
            \<or> sublist (full_domain @ '' is taken'') page_text)
       \<and> whole_page_fallback page_text full_domain (None, ''Unknown'') \<noteq> (Some False, ''Taken'')"
proof -
  from assms have nt: "\<not> any_in taken_indicators page_text"
    by (simp add: taken_scan_None)
  then have "\<not> (sublist ''domain taken'' page_text
            \<or> sublist (full_domain @ '' is taken'') page_text)"
    using literal_phrases_are_indicators [of page_text full_domain] by blast
  with nt show ?thesis
    by (simp add: whole_page_fallback_not_taken)
qed

theorem fallback_taken_branch_unreachable_witness:
  "fst (taken_scan taken_indicators ''bar.com add to cart'' (None, ''Unknown'')) = None
   \<and> \<not> (sublist ''domain taken'' ''bar.com add to cart''
          \<or> sublist (''bar.com'' @ '' is taken'') ''bar.com add to cart'')
   \<and> whole_page_fallback ''bar.com add to cart'' ''bar.com'' (None, ''Unknown'')
       \<noteq> (Some False, ''Taken'')"
proof -
  have scan: "fst (taken_scan taken_indicators ''bar.com add to cart'' (None, ''Unknown'')) = None"
    by code_simp
  from fallback_taken_branch_unreachable [OF scan, of "''bar.com''"] scan
  show ?thesis by blast
qed

section \<open>Facts about the loops\<close>

text \<open>
  A check whose navigation raises yields the error record; every check advances the driver
  by one navigation and copies the name and the extension into its record. The loops of
  both front ends compute \<open>run_queries\<close> on the list of queries.
\<close>

lemma check_domain_availability_failed:
  "responses driver (navigations driver) (search_url (domain_name @ extension)) = Inl e \<Longrightarrow>
   fst (check_domain_availability driver domain_name extension) =
     \<lparr>Domain_Name = domain_name, Extension = extension,
      Full_Domain = domain_name @ extension,
      Available = ''Unknown'', Status = ''Error: '' @ str e\<rparr>"
  by (simp add: check_domain_availability_def driver_get_def Let_def split: prod.splits)

lemma app_check_domain_availability_failed:
  "responses driver (navigations driver) (search_url (domain_name @ extension)) = Inl e \<Longrightarrow>
   fst (app_check_domain_availability driver domain_name extension) =
     \<lparr>Domain_Name = domain_name, Extension = extension,
      Full_Domain = domain_name @ extension,
      Available = ''Unknown'', Status = ''Error: '' @ take 50 (str e)\<rparr>"
  by (simp add: app_check_domain_availability_def driver_get_def Let_def split: prod.splits)

lemma check_domain_availability_advances:
  "snd (check_domain_availability driver d e) = driver\<lparr>navigations := Suc (navigations driver)\<rparr>"
  by (simp add: check_domain_availability_def driver_get_def Let_def split: prod.splits)

lemma app_check_domain_availability_advances:
  "snd (app_check_domain_availability driver d e) = driver\<lparr>navigations := Suc (navigations driver)\<rparr>"
  by (simp add: app_check_domain_availability_def driver_get_def Let_def split: prod.splits)

lemma check_domain_availability_fields:
  "Domain_Name (fst (check_domain_availability driver d e)) = d
   \<and> Extension (fst (check_domain_availability driver d e)) = e
   \<and> Full_Domain (fst (check_domain_availability driver d e)) = d @ e"
  by (simp add: check_domain_availability_def driver_get_def Let_def split: prod.splits sum.splits)

lemma app_check_domain_availability_fields:
  "Domain_Name (fst (app_check_domain_availability driver d e)) = d
   \<and> Extension (fst (app_check_domain_availability driver d e)) = e
   \<and> Full_Domain (fst (app_check_domain_availability driver d e)) = d @ e"
  by (simp add: app_check_domain_availability_def driver_get_def Let_def split: prod.splits sum.splits)

lemma run_queries_Cons:
  "run_queries chk driver ((d, e) # qs) =
     (fst (chk driver d e) # fst (run_queries chk (snd (chk driver d e)) qs),
      snd (run_queries chk (snd (chk driver d e)) qs))"
  by (simp add: case_prod_beta)

declare run_queries.simps(2) [simp del]

lemma run_queries_length: "length (fst (run_queries chk driver qs)) = length qs"
  by (induction qs arbitrary: driver) (auto simp: run_queries_Cons)

lemma run_queries_append:
  "run_queries chk driver (qs @ qs') =
     (fst (run_queries chk driver qs) @ fst (run_queries chk (snd (run_queries chk driver qs)) qs'),
      snd (run_queries chk (snd (run_queries chk driver qs)) qs'))"
  by (induction qs arbitrary: driver) (auto simp: run_queries_Cons)

lemma run_queries_nth:
  assumes adv: "\<And>driver d e. snd (chk driver d e) = driver\<lparr>navigations := Suc (navigations driver)\<rparr>"
  shows "i < length qs \<Longrightarrow>
         fst (run_queries chk driver qs) ! i =
           fst (chk (driver\<lparr>navigations := navigations driver + i\<rparr>) (fst (qs ! i)) (snd (qs ! i)))"
proof (induction qs arbitrary: driver i)
  case Nil
  then show ?case by simp
next
  case (Cons q qs)
  obtain d e where q: "q = (d, e)" by (cases q)
  show ?case
  proof (cases i)
    case 0
    then show ?thesis by (simp add: q run_queries_Cons)
  next
    case (Suc j)
    with Cons.prems have j: "j < length qs" by simp
    have step: "snd (chk driver d e) = driver\<lparr>navigations := Suc (navigations driver)\<rparr>"
      by (rule adv)
    from Cons.IH [OF j, of "snd (chk driver d e)"] show ?thesis
      by (simp add: q Suc step run_queries_Cons)
  qed
qed

lemma run_queries_fields:
  assumes "\<And>driver d e. Domain_Name (fst (chk driver d e)) = d
              \<and> Extension (fst (chk driver d e)) = e
              \<and> Full_Domain (fst (chk driver d e)) = d @ e"
  shows "map (\<lambda>r. (Domain_Name r, Extension r, Full_Domain r)) (fst (run_queries chk driver qs))
           = map (\<lambda>(d, e). (d, e, d @ e)) qs"
proof (induction qs arbitrary: driver)
  case Nil
  then show ?case by simp
next
  case (Cons q qs)
  obtain d e where q: "q = (d, e)" by (cases q)
  from assms [of driver d e] Cons.IH [of "snd (chk driver d e)"] show ?case
    by (simp add: q run_queries_Cons)
qed

lemma extensions_loop_run:
  "results (extensions_loop d es s) =
     results s @ fst (run_queries check_domain_availability (drv s) (map (\<lambda>e. (d, e)) es))
   \<and> drv (extensions_loop d es s) =
     snd (run_queries check_domain_availability (drv s) (map (\<lambda>e. (d, e)) es))"
  by (induction es arbitrary: s) (simp_all add: run_queries_Cons case_prod_beta)

lemma queries_Cons:
  "queries (name # names) extensions =
     (if lower (strip name) = [] then queries names extensions
      else map (\<lambda>e. (lower (strip name), e)) extensions @ queries names extensions)"
  by (simp add: queries_def normalized_names_def)

lemma domains_loop_run:
  "results (domains_loop names extensions s) =
     results s @ fst (run_queries check_domain_availability (drv s) (queries names extensions))
   \<and> drv (domains_loop names extensions s) =
     snd (run_queries check_domain_availability (drv s) (queries names extensions))"
proof (induction names arbitrary: s)
  case Nil
  then show ?case by (simp add: queries_def normalized_names_def)
next
  case (Cons name names)
  show ?case
  proof (cases "lower (strip name) = []")
    case True
    with Cons.IH [of s] show ?thesis by (simp add: queries_Cons)
  next
    case False
    with Cons.IH [of "extensions_loop (lower (strip name)) extensions s"] show ?thesis
      by (simp add: queries_Cons run_queries_append extensions_loop_run Let_def)
  qed
qed

lemma check_domains_run:
  "fst (check_domains (Inr driver) names extensions) =
     fst (run_queries check_domain_availability driver (queries names extensions))"
  by (simp add: check_domains_def Let_def domains_loop_run)

lemma app_extensions_loop_run:
  "app_extensions_loop d es (driver, rs) =
     (snd (run_queries app_check_domain_availability driver (map (\<lambda>e. (d, e)) es)),
      rs @ fst (run_queries app_check_domain_availability driver (map (\<lambda>e. (d, e)) es)))"
  by (induction es arbitrary: driver rs) (simp_all add: run_queries_Cons case_prod_beta)

lemma app_domain_names_normalized: "app_domain_names lines = normalized_names lines"
proof -
  have "lower s = [] \<longleftrightarrow> s = []" for s by (simp add: lower_def)
  then show ?thesis
    by (induction lines) (simp_all add: app_domain_names_def normalized_names_def)
qed

lemma app_domains_loop_run:
  "app_domains_loop ns extensions (driver, rs) =
     (snd (run_queries app_check_domain_availability driver
             (concat (map (\<lambda>d. map (\<lambda>e. (d, e)) extensions) (filter (\<lambda>n. n \<noteq> []) ns)))),
      rs @ fst (run_queries app_check_domain_availability driver
             (concat (map (\<lambda>d. map (\<lambda>e. (d, e)) extensions) (filter (\<lambda>n. n \<noteq> []) ns)))))"
proof (induction ns arbitrary: driver rs)
  case Nil
  then show ?case by simp
next
  case (Cons n ns)
  show ?case
  proof (cases "n = []")
    case True
    with Cons.IH show ?thesis by simp
  next
    case False
    with Cons.IH show ?thesis
      by (simp add: app_extensions_loop_run run_queries_append)
  qed
qed

lemma filter_normalized: "filter (\<lambda>n. n \<noteq> []) (normalized_names names) = normalized_names names"
  by (simp add: normalized_names_def)

lemma app_loop_run:
  "snd (app_domains_loop (app_domain_names lines) extensions (driver, [])) =
     fst (run_queries app_check_domain_availability driver (queries lines extensions))"
  by (simp add: app_domains_loop_run app_domain_names_normalized filter_normalized queries_def)

lemma length_queries:
  "length (queries names extensions) = length (normalized_names names) * length extensions"
  by (simp add: queries_def length_concat comp_def sum_list_triv)

section \<open>Fetch failures\<close>

text \<open>
  C6, as stated, fails for \<open>domain_checker.py\<close>: its status carries the whole message of
  the exception, here 68 characters, and not a truncated form of it.
\<close>

theorem cli_error_status_not_truncated:
  "Status (fst (check_domain_availability timing_out ''baz'' ''.dev''))
     = ''Error: '' @ timeout_message
   \<and> length timeout_message = 68
   \<and> Status (fst (check_domain_availability timing_out ''baz'' ''.dev''))
       \<noteq> ''Error: '' @ take 50 timeout_message"
proof -
  have "Status (fst (check_domain_availability timing_out ''baz'' ''.dev''))
          = ''Error: '' @ timeout_message"
    by code_simp
  moreover have "length timeout_message = 68"
    by code_simp
  moreover have "Status (fst (check_domain_availability timing_out ''baz'' ''.dev''))
                   \<noteq> ''Error: '' @ take 50 timeout_message"
    by code_simp
  ultimately show ?thesis by blast
qed

text \<open>
  C6, amended. When the fetch of the \<open>i\<close>-th query of a run raises, the result at
  position \<open>i\<close> has \<open>Available = "Unknown"\<close> and \<open>Status = "Error: "\<close> followed by the
  message of the exception, whole in \<open>domain_checker.py\<close> and cut to its first 50
  characters in \<open>app.py\<close>; the indicator logic is not involved, and the run goes on: the
  result list has one entry for every query.
\<close>

theorem fetch_failure_gives_error_result:
  assumes "i < length (queries names extensions)"
    and "queries names extensions ! i = (d, e)"
    and "responses driver (navigations driver + i) (search_url (d @ e)) = Inl ex"
  shows "fst (check_domains (Inr driver) names extensions) ! i =
           \<lparr>Domain_Name = d, Extension = e, Full_Domain = d @ e,
            Available = ''Unknown'', Status = ''Error: '' @ str ex\<rparr>
       \<and> snd (app_domains_loop (app_domain_names names) extensions (driver, [])) ! i =
           \<lparr>Domain_Name = d, Extension = e, Full_Domain = d @ e,
            Available = ''Unknown'', Status = ''Error: '' @ take 50 (str ex)\<rparr>
       \<and> length (fst (check_domains (Inr driver) names extensions))
           = length (queries names extensions)
       \<and> length (snd (app_domains_loop (app_domain_names names) extensions (driver, [])))
           = length (queries names extensions)"
proof -
  let ?at = "driver\<lparr>navigations := navigations driver + i\<rparr>"
  from assms(3) have failed:
    "responses ?at (navigations ?at) (search_url (d @ e)) = Inl ex"
    by simp
  have "fst (check_domains (Inr driver) names extensions) ! i =
          fst (check_domain_availability ?at d e)"
    using run_queries_nth [where chk = check_domain_availability and driver = driver,
        OF check_domain_availability_advances assms(1)] assms(2)
    by (simp add: check_domains_run)
  moreover have "snd (app_domains_loop (app_domain_names names) extensions (driver, [])) ! i =
          fst (app_check_domain_availability ?at d e)"
    using run_queries_nth [where chk = app_check_domain_availability and driver = driver,
        OF app_check_domain_availability_advances assms(1)] assms(2)
    by (simp add: app_loop_run)
  ultimately show ?thesis
    using check_domain_availability_failed [OF failed]
      app_check_domain_availability_failed [OF failed]
    by (simp add: check_domains_run app_loop_run run_queries_length)
qed

theorem fetch_failure_gives_error_result_witness:
  "1 < length (queries [''foo''] [''.com'', ''.dev''])
   \<and> queries [''foo''] [''.com'', ''.dev''] ! 1 = (''foo'', ''.dev'')
   \<and> responses second_fails (navigations second_fails + 1) (search_url (''foo'' @ ''.dev''))
       = Inl (OtherException timeout_message)
   \<and> fst (check_domains (Inr second_fails) [''foo''] [''.com'', ''.dev'']) ! 1 =
       \<lparr>Domain_Name = ''foo'', Extension = ''.dev'', Full_Domain = ''foo'' @ ''.dev'',
        Available = ''Unknown'', Status = ''Error: '' @ str (OtherException timeout_message)\<rparr>
   \<and> length (fst (check_domains (Inr second_fails) [''foo''] [''.com'', ''.dev'']))
       = length (queries [''foo''] [''.com'', ''.dev''])"
proof -
  have position: "1 < length (queries [''foo''] [''.com'', ''.dev''])"
    by code_simp
  have query: "queries [''foo''] [''.com'', ''.dev''] ! 1 = (''foo'', ''.dev'')"
    by code_simp
  have failed: "responses second_fails (navigations second_fails + 1)
                  (search_url (''foo'' @ ''.dev'')) = Inl (OtherException timeout_message)"
    by (simp add: second_fails_def)
  from fetch_failure_gives_error_result [OF position query failed] position query failed
  show ?thesis by blast
qed

section \<open>Count and order of the results\<close>

text \<open>
  C7. With a driver at hand, the results of a run are the checks of the queries of the job
  in their order, base names outside and extensions inside, each on the driver as the
  check before left it, whatever the driver answers: every result carries the name and the
  extension of its query, and there are \<open>n * m\<close> of them for \<open>n\<close> normalised names and
  \<open>m\<close> extensions. This holds for \<open>check_domains\<close> and for the loop of \<open>app.py\<close>, whose
  list of names is the normalised one.
\<close>

theorem results_follow_queries:
  "fst (check_domains (Inr driver) names extensions)
     = fst (run_queries check_domain_availability driver (queries names extensions))
   \<and> map (\<lambda>r. (Domain_Name r, Extension r, Full_Domain r))
         (fst (check_domains (Inr driver) names extensions))
       = map (\<lambda>(d, e). (d, e, d @ e)) (queries names extensions)
   \<and> length (fst (check_domains (Inr driver) names extensions))
       = length (normalized_names names) * length extensions
   \<and> app_domain_names names = normalized_names names
   \<and> snd (app_domains_loop (app_domain_names names) extensions (driver, []))
       = fst (run_queries app_check_domain_availability driver (queries names extensions))
   \<and> map (\<lambda>r. (Domain_Name r, Extension r, Full_Domain r))
         (snd (app_domains_loop (app_domain_names names) extensions (driver, [])))
       = map (\<lambda>(d, e). (d, e, d @ e)) (queries names extensions)
   \<and> length (snd (app_domains_loop (app_domain_names names) extensions (driver, [])))
       = length (normalized_names names) * length extensions"
proof -
  let ?cli = "fst (check_domains (Inr driver) names extensions)"
  let ?app = "snd (app_domains_loop (app_domain_names names) extensions (driver, []))"
  have cli: "?cli = fst (run_queries check_domain_availability driver (queries names extensions))"
    by (rule check_domains_run)
  have app: "?app = fst (run_queries app_check_domain_availability driver (queries names extensions))"
    by (rule app_loop_run)
  have "map (\<lambda>r. (Domain_Name r, Extension r, Full_Domain r)) ?cli
          = map (\<lambda>(d, e). (d, e, d @ e)) (queries names extensions)"
    unfolding cli by (rule run_queries_fields, rule check_domain_availability_fields)
  moreover have "map (\<lambda>r. (Domain_Name r, Extension r, Full_Domain r)) ?app
          = map (\<lambda>(d, e). (d, e, d @ e)) (queries names extensions)"
    unfolding app by (rule run_queries_fields, rule app_check_domain_availability_fields)
  moreover have "length ?cli = length (normalized_names names) * length extensions"
    unfolding cli by (simp add: run_queries_length length_queries)
  moreover have "length ?app = length (normalized_names names) * length extensions"
    unfolding app by (simp add: run_queries_length length_queries)
  moreover note cli app app_domain_names_normalized [of names]
  ultimately show ?thesis by blast
qed

section \<open>Failure to set up the browser\<close>

text \<open>
  C8. When the driver cannot be constructed, \<open>check_domains\<close> runs no query: it returns
  the empty list and prints the set-up error, which no result record carries;
  \<open>save_to_csv\<close> then writes no file. In \<open>app.py\<close> the handler stops without results.
\<close>

theorem setup_failure_aborts_run:
  "check_domains (Inl e) names extensions =
     ([], [''Error setting up browser: '' @ str e,
           ''Make sure you have ChromeDriver installed and in your PATH'',
           ''Or install it with: brew install chromedriver (on macOS)''])
   \<and> save_to_csv (fst (check_domains (Inl e) names extensions)) filename
       = (None, [''No results to save.''])
   \<and> app_check (Inl e) names extensions = None"
  by (simp add: check_domains_def save_to_csv_def app_check_def Let_def)

section \<open>The \<open>Available\<close> field\<close>

lemma available_field_range:
  "available_field a = ''Yes'' \<or> available_field a = ''No'' \<or> available_field a = ''Unknown''"
  by (cases a rule: available_field.cases) simp_all

lemma check_domain_availability_field_range:
  "Available (fst (check_domain_availability driver d e)) \<in> {''Yes'', ''No'', ''Unknown''}"
  using available_field_range
  by (auto simp: check_domain_availability_def driver_get_def Let_def case_prod_beta
      split: sum.splits)

lemma app_check_domain_availability_field_range:
  "Available (fst (app_check_domain_availability driver d e)) \<in> {''Yes'', ''No'', ''Unknown''}"
  using available_field_range
  by (auto simp: app_check_domain_availability_def driver_get_def Let_def case_prod_beta
      split: sum.splits)

lemma run_queries_all:
  assumes "\<And>driver d e. P (fst (chk driver d e))"
  shows "list_all P (fst (run_queries chk driver qs))"
proof (induction qs arbitrary: driver)
  case Nil
  then show ?case by simp
next
  case (Cons q qs)
  obtain d e where q: "q = (d, e)" by (cases q)
  from assms [of driver d e] Cons.IH [of "snd (chk driver d e)"] show ?case
    by (simp add: q run_queries_Cons)
qed

lemma counts_partition:
  "list_all (\<lambda>r. Available r \<in> {''Yes'', ''No'', ''Unknown''}) rs \<Longrightarrow>
   available_count rs + taken_count rs + unknown_count rs = length rs"
  by (induction rs) (auto simp: available_count_def taken_count_def unknown_count_def)

lemma classify_field_matches_status:
  "(available_field (fst (classify p fd)) = ''Yes'' \<longleftrightarrow> snd (classify p fd) = ''Available'')
   \<and> (available_field (fst (classify p fd)) = ''No'' \<longleftrightarrow> snd (classify p fd) = ''Taken'')
   \<and> (available_field (fst (classify p fd)) = ''Unknown'' \<longleftrightarrow> snd (classify p fd) = ''Unknown'')"
  using classify_range [of p fd] by auto

text \<open>
  C10. The \<open>Available\<close> field of every result is \<open>Yes\<close>, \<open>No\<close> or \<open>Unknown\<close>; when the
  page loaded it is \<open>Yes\<close> exactly when \<open>Status\<close> is \<open>Available\<close>, \<open>No\<close> exactly when it is
  \<open>Taken\<close> and \<open>Unknown\<close> exactly when it is \<open>Unknown\<close>; and the three counts of the summary
  add up to the number of results of a run.
\<close>

theorem available_field_matches_status:
  "Available (fst (check_domain_availability driver d e)) \<in> {''Yes'', ''No'', ''Unknown''}
   \<and> Available (fst (app_check_domain_availability driver d e)) \<in> {''Yes'', ''No'', ''Unknown''}
   \<and> (responses driver (navigations driver) (search_url (d @ e)) = Inr p \<longrightarrow>
        (Available (fst (check_domain_availability driver d e)) = ''Yes''
           \<longleftrightarrow> Status (fst (check_domain_availability driver d e)) = ''Available'')
      \<and> (Available (fst (check_domain_availability driver d e)) = ''No''
           \<longleftrightarrow> Status (fst (check_domain_availability driver d e)) = ''Taken'')
      \<and> (Available (fst (check_domain_availability driver d e)) = ''Unknown''
           \<longleftrightarrow> Status (fst (check_domain_availability driver d e)) = ''Unknown'')
      \<and> (Available (fst (app_check_domain_availability driver d e)) = ''Yes''
           \<longleftrightarrow> Status (fst (app_check_domain_availability driver d e)) = ''Available'')
      \<and> (Available (fst (app_check_domain_availability driver d e)) = ''No''
           \<longleftrightarrow> Status (fst (app_check_domain_availability driver d e)) = ''Taken'')
      \<and> (Available (fst (app_check_domain_availability driver d e)) = ''Unknown''
           \<longleftrightarrow> Status (fst (app_check_domain_availability driver d e)) = ''Unknown''))
   \<and> available_count (fst (check_domains chrome names extensions))
       + taken_count (fst (check_domains chrome names extensions))
       + unknown_count (fst (check_domains chrome names extensions))
       = length (fst (check_domains chrome names extensions))
   \<and> available_count (snd (app_domains_loop (app_domain_names names) extensions (driver, [])))
       + taken_count (snd (app_domains_loop (app_domain_names names) extensions (driver, [])))
       + unknown_count (snd (app_domains_loop (app_domain_names names) extensions (driver, [])))
       = length (snd (app_domains_loop (app_domain_names names) extensions (driver, [])))"
proof -
  have cli: "available_count (fst (check_domains chrome names extensions))
       + taken_count (fst (check_domains chrome names extensions))
       + unknown_count (fst (check_domains chrome names extensions))
       = length (fst (check_domains chrome names extensions))"
  proof (cases chrome)
    case (Inl ex)
    then show ?thesis
      by (simp add: check_domains_def available_count_def taken_count_def unknown_count_def)
  next
    case (Inr started)
    show ?thesis
      unfolding Inr check_domains_run
      by (rule counts_partition, rule run_queries_all, rule check_domain_availability_field_range)
  qed
  have app: "available_count (snd (app_domains_loop (app_domain_names names) extensions (driver, [])))
       + taken_count (snd (app_domains_loop (app_domain_names names) extensions (driver, [])))
       + unknown_count (snd (app_domains_loop (app_domain_names names) extensions (driver, [])))
       = length (snd (app_domains_loop (app_domain_names names) extensions (driver, [])))"
    unfolding app_loop_run
    by (rule counts_partition, rule run_queries_all, rule app_check_domain_availability_field_range)
  show ?thesis
    using cli app check_domain_availability_field_range [of driver d e]
      app_check_domain_availability_field_range [of driver d e]
      classify_field_matches_status [of p "d @ e"]
    by (simp add: check_domain_availability_loaded app_check_domain_availability_loaded)
qed

theorem available_field_matches_status_witness:
  "responses (serving available_page) (navigations (serving available_page))
     (search_url (''bar'' @ ''.com'')) = Inr available_page
   \<and> Available (fst (check_domain_availability (serving available_page) ''bar'' ''.com'')) = ''Yes''
   \<and> Status (fst (check_domain_availability (serving available_page) ''bar'' ''.com'')) = ''Available''
   \<and> Available (fst (app_check_domain_availability (serving available_page) ''bar'' ''.com'')) = ''Yes''
   \<and> Status (fst (app_check_domain_availability (serving available_page) ''bar'' ''.com'')) = ''Available''"
proof -
  have loaded: "responses (serving available_page) (navigations (serving available_page))
                  (search_url (''bar'' @ ''.com'')) = Inr available_page"
    by (simp add: serving_def)
  have cli: "Available (fst (check_domain_availability (serving available_page) ''bar'' ''.com'')) = ''Yes''"
    by code_simp
  have app: "Available (fst (app_check_domain_availability (serving available_page) ''bar'' ''.com'')) = ''Yes''"
    by code_simp
  from available_field_matches_status [of "serving available_page" "''bar''" "''.com''" available_page]
    loaded cli app
  show ?thesis by blast
qed

end
